theory Spec2Isabelle
  imports Main
begin

section \<open>A shallow embedding of \<open>shell.c\<close>\<close>

text \<open>
  The shell reads a line, splits it into tokens, runs a built-in or forks a child that
  scans the tokens for redirections (\<open>excute\<close>), resolves the program name along
  \<open>PATH\<close> (\<open>resolve\<close>) and calls \<open>execv\<close>. The embedding keeps the C functions as
  HOL functions over an explicit operating-system state: the file system, the
  environment, the descriptor table of the running process and the list of system calls
  made so far. A null pointer is \<open>None\<close>; dereferencing it is the outcome \<open>Segfault\<close>.
  A heap block has the size the allocator gives it; a store past its end is the
  outcome \<open>Heap_overflow\<close>, after which nothing is said about the process.
\<close>

subsection \<open>Pointers and crashes\<close>

datatype 'a res = Segfault | Heap_overflow | Done 'a

text \<open>\<open>*p\<close> for a \<open>char *\<close>: the first byte of the string, the terminating NUL for the
  empty string, a crash for the null pointer.\<close>

definition first_char :: "string \<Rightarrow> char" where
  "first_char s = (case s of [] \<Rightarrow> CHR 0x00 | c # _ \<Rightarrow> c)"

definition star :: "string option \<Rightarrow> char res" where
  "star p = (case p of None \<Rightarrow> Segfault | Some s \<Rightarrow> Done (first_char s))"

subsection \<open>The tokenizer interface\<close>

text \<open>Modelled from the spec: \<open>tokenizer.h\<close> and its implementation are not among the
  sources. The spec gives the interface \<open>tokenCount(seq) -> int\<close> over an ordered sequence
  of string tokens.\<close>

definition tokens_get_length :: "string list \<Rightarrow> int" where
  "tokens_get_length tokens = int (length tokens)"

text \<open>Modelled from the spec: the accessor \<open>tokenAt(seq, i) -> string\<close> of the same missing
  tokenizer. An index outside the sequence yields the null pointer: \<open>lookup\<close> guards its
  argument with \<open>cmd &&\<close> before comparing \<open>tokens_get_token(tokens, 0)\<close>, and \<open>main\<close>
  passes it the result for an empty line.\<close>

definition tokens_get_token :: "string list \<Rightarrow> int \<Rightarrow> string option" where
  "tokens_get_token tokens n =
     (if 0 \<le> n \<and> n < int (length tokens) then Some (tokens ! nat n) else None)"

subsection \<open>The operating system as seen by one process\<close>

datatype open_flag = O_RDONLY | O_WRONLY | O_CREAT | O_TRUNC

datatype signal = SIGINT | SIGTTOU

datatype disposition = SIG_DFL | SIG_IGN | Handler

text \<open>The system calls the shell makes, with their arguments, in the order made;
  \<open>Print\<close> and \<open>Prompt\<close> are the two \<open>fprintf\<close> calls of \<open>main\<close>.\<close>

datatype event =
    Fork int
  | Open "string option" "open_flag set" "nat option" int
  | Dup2 int int
  | Execv "string option" "string option list"
  | Print string
  | Prompt int
  | Setpgid int int
  | Signal_call signal disposition
  | Sigaction signal disposition
  | Waitpid int
  | Kill int signal
  | Builtin int

record inode =
  contents :: string
  perm :: nat

text \<open>Besides the environment, the files, the descriptor table and the calls made, the
  state holds two things that \<open>shell.c\<close> depends on and does not decide: the number of
  bytes that a block obtained from \<open>malloc(n)\<close> really has (\<open>usable_size\<close>), and what a
  program started by \<open>execv\<close> has done to the files when it ends (\<open>program\<close>, given its
  path and arguments).\<close>

record os =
  env_PATH :: "string option"
  files :: "string \<rightharpoonup> inode"
  fdt :: "int \<rightharpoonup> string"
  next_fd :: nat
  trace :: "event list"
  usable_size :: "nat \<Rightarrow> nat"
  program :: "string \<Rightarrow> string option list \<Rightarrow> (string \<rightharpoonup> inode) \<Rightarrow> (string \<rightharpoonup> inode)"

definition log :: "event \<Rightarrow> os \<Rightarrow> os" where
  "log e s = s\<lparr>trace := trace s @ [e]\<rparr>"

text \<open>\<open>S_IRWXU\<close> is octal 0700; the owner bits are 0400 (read), 0200 (write) and
  0100 (execute). The process owns its files and its umask is 0.\<close>

definition S_IRWXU :: nat where
  "S_IRWXU = 448"

definition owner_r :: "inode \<Rightarrow> bool" where
  "owner_r f = ((perm f div 256) mod 2 = 1)"

definition owner_w :: "inode \<Rightarrow> bool" where
  "owner_w f = ((perm f div 128) mod 2 = 1)"

definition owner_x :: "inode \<Rightarrow> bool" where
  "owner_x f = ((perm f div 64) mod 2 = 1)"

text \<open>\<open>open(2)\<close>: a null or empty path fails; a missing file is created (empty, with the
  given mode) only under \<open>O_CREAT\<close>; an existing file must grant the access asked for and
  is emptied only under \<open>O_TRUNC\<close>. A successful call returns the next free descriptor
  (none is ever closed, so a counter gives it);
  a failed one returns -1 and changes nothing.\<close>

definition open_effect :: "os \<Rightarrow> string option \<Rightarrow> open_flag set \<Rightarrow> nat option \<Rightarrow> (string \<times> os) option" where
  "open_effect s path flags mode =
     (case path of
        None \<Rightarrow> None
      | Some p \<Rightarrow>
          if p = [] then None
          else (case files s p of
                  None \<Rightarrow>
                    if O_CREAT \<in> flags
                    then Some (p, s\<lparr>files := (files s)(p \<mapsto>
                           \<lparr>contents = [], perm = (case mode of None \<Rightarrow> 0 | Some m \<Rightarrow> m)\<rparr>)\<rparr>)
                    else None
                | Some f \<Rightarrow>
                    if (if O_WRONLY \<in> flags then owner_w f else owner_r f)
                    then Some (p, if O_TRUNC \<in> flags
                                  then s\<lparr>files := (files s)(p \<mapsto> f\<lparr>contents := []\<rparr>)\<rparr>
                                  else s)
                    else None))"

definition sys_open :: "os \<Rightarrow> string option \<Rightarrow> open_flag set \<Rightarrow> nat option \<Rightarrow> int \<times> os" where
  "sys_open s path flags mode =
     (case open_effect s path flags mode of
        None \<Rightarrow> (- 1, log (Open path flags mode (- 1)) s)
      | Some (p, s') \<Rightarrow>
          (int (next_fd s'),
           log (Open path flags mode (int (next_fd s')))
             (s'\<lparr>fdt := (fdt s')(int (next_fd s') \<mapsto> p), next_fd := next_fd s' + 1\<rparr>)))"

text \<open>\<open>dup2(2)\<close>: makes \<open>newfd\<close> refer to what \<open>oldfd\<close> refers to; fails, changing nothing,
  when \<open>oldfd\<close> is negative or not an open descriptor.\<close>

definition sys_dup2 :: "os \<Rightarrow> int \<Rightarrow> int \<Rightarrow> int \<times> os" where
  "sys_dup2 s oldfd newfd =
     (case (if oldfd < 0 then None else fdt s oldfd) of
        None \<Rightarrow> (- 1, log (Dup2 oldfd newfd) s)
      | Some d \<Rightarrow> (newfd, log (Dup2 oldfd newfd) (s\<lparr>fdt := (fdt s)(newfd \<mapsto> d)\<rparr>)))"

text \<open>\<open>access(path, F_OK) == 0\<close>: the file exists.\<close>

definition access_F_OK :: "os \<Rightarrow> string \<Rightarrow> bool" where
  "access_F_OK s p = (files s p \<noteq> None)"

text \<open>\<open>malloc(n)\<close> is taken to succeed. The block has at least the \<open>n\<close> bytes asked for
  and as many as the allocator says; bytes up to that bound can be written, a store
  beyond it damages the heap. A pointer takes \<open>sizeof(char*)\<close> bytes, 8 on the LP64
  systems the shell is built for.\<close>

definition block :: "os \<Rightarrow> nat \<Rightarrow> nat" where
  "block s n = max n (usable_size s n)"

definition sizeof_ptr :: nat where
  "sizeof_ptr = 8"

text \<open>\<open>execv(2)\<close> either replaces the process image, and then never returns, or
  returns -1. It succeeds on an existing file that its owner may execute. \<open>launch\<close> is
  how a call of \<open>excute\<close> ends: in \<open>execv\<close>, replaced or returned, or before it, in a
  null dereference or a store past a heap block; each with the state reached.\<close>

datatype launch =
    Replaced string "string option list" os
  | Returned int os
  | Segfaulted os
  | Overflowed os

definition sys_execv :: "os \<Rightarrow> string option \<Rightarrow> string option list \<Rightarrow> launch" where
  "sys_execv s path argv =
     (let s' = log (Execv path argv) s in
      case path of
        None \<Rightarrow> Returned (- 1) s'
      | Some p \<Rightarrow>
          (case files s p of
             None \<Rightarrow> Returned (- 1) s'
           | Some f \<Rightarrow> if owner_x f then Replaced p argv s' else Returned (- 1) s'))"

subsection \<open>\<open>resolve\<close>: program names from the environment\<close>

text \<open>\<open>strtok(path2, ":")\<close> and the following \<open>strtok(NULL, ":")\<close> calls yield, in order,
  the maximal non-empty runs of characters other than \<open>:\<close>; the first call returns the
  null pointer when there is none. \<open>strtok_from cur cs\<close> is the list of all the segments
  of \<open>cs\<close>, \<open>cur\<close> being the run read so far.\<close>

fun strtok_from :: "string \<Rightarrow> string \<Rightarrow> string list" where
  "strtok_from cur [] = (if cur = [] then [] else [cur])"
| "strtok_from cur (c # cs) =
     (if c = CHR '':''
      then (if cur = [] then strtok_from [] cs else cur # strtok_from [] cs)
      else strtok_from (cur @ [c]) cs)"

definition strtok_all :: "string \<Rightarrow> string list" where
  "strtok_all path = strtok_from [] path"

text \<open>A candidate is built in a block of \<open>strlen(path_seg) + 1\<close> bytes: \<open>strcpy\<close> fills
  it, and the two \<open>strcat\<close> calls then append \<open>/\<close> and the name, which takes
  \<open>strlen(path_seg) + 1 + strlen(name) + 1\<close> bytes in all. The \<open>while\<close> loop of \<open>resolve\<close>
  over the remaining segments:\<close>

fun resolve_loop :: "os \<Rightarrow> string \<Rightarrow> string list \<Rightarrow> string option res" where
  "resolve_loop s name [] = Done None"
| "resolve_loop s name (path_seg # segs) =
     (if block s (length path_seg + 1) < length path_seg + 1 + length name + 1
      then Heap_overflow
      else (let path_seg2 = path_seg @ ''/'' @ name in
            if access_F_OK s path_seg2 then Done (Some path_seg2)
            else resolve_loop s name segs))"

text \<open>\<open>strlen(path)\<close> dereferences the result of \<open>getenv\<close>, and \<open>strlen(path_seg)\<close> the
  result of the first \<open>strtok\<close>, without a null check. The copy \<open>path2\<close> of \<open>PATH\<close> fits
  its block of \<open>strlen(path) + 1\<close> bytes; the first candidate is built like the later
  ones.\<close>

definition resolve :: "os \<Rightarrow> string \<Rightarrow> string option res" where
  "resolve s name =
     (case env_PATH s of
        None \<Rightarrow> Segfault
      | Some path \<Rightarrow>
          (case strtok_all path of
             [] \<Rightarrow> Segfault
           | path_seg # segs \<Rightarrow>
               (if block s (length path_seg + 1) < length path_seg + 1 + length name + 1
                then Heap_overflow
                else (let path_seg2 = path_seg @ ''/'' @ name in
                      if access_F_OK s path_seg2 then Done (Some path_seg2)
                      else resolve_loop s name segs))))"

subsection \<open>\<open>excute\<close>: redirections, resolution and program replacement\<close>

text \<open>The \<open>for\<close> loop of \<open>excute\<close>. \<open>i\<close> is the loop index, \<open>argv\<close> the cells
  \<open>argv[0..j-1]\<close> written so far. A token whose first character is neither \<open>>\<close> nor \<open><\<close> is
  appended; otherwise the token at \<open>i+1\<close> is opened and duplicated onto descriptor 0 or 1,
  whatever \<open>open\<close> returned, and the index skips it.\<close>

function excute_loop :: "string list \<Rightarrow> nat \<Rightarrow> string option list \<Rightarrow> os \<Rightarrow> (string option list \<times> os) res" where
  "excute_loop tokens i argv s =
     (if int i < tokens_get_length tokens then
        (case star (tokens_get_token tokens (int i)) of
           Segfault \<Rightarrow> Segfault
         | Heap_overflow \<Rightarrow> Heap_overflow
         | Done c \<Rightarrow>
             if c \<noteq> CHR ''>'' \<and> c \<noteq> CHR ''<'' then
               excute_loop tokens (i + 1) (argv @ [tokens_get_token tokens (int i)]) s
             else if c = CHR ''<'' then
               (let infile = tokens_get_token tokens (int i + 1);
                    r = sys_open s infile {O_RDONLY} None;
                    s2 = snd (sys_dup2 (snd r) (fst r) 0)
                in excute_loop tokens (i + 2) argv s2)
             else
               (let outfile = tokens_get_token tokens (int i + 1);
                    r = sys_open s outfile {O_WRONLY, O_CREAT} (Some S_IRWXU);
                    s2 = snd (sys_dup2 (snd r) (fst r) 1)
                in excute_loop tokens (i + 2) argv s2))
      else Done (argv, s))"
  by pat_completeness auto
termination
  by (relation "measure (\<lambda>(tokens, i, argv, s). length tokens - i)")
     (auto simp: tokens_get_length_def)

text \<open>What \<open>excute\<close> does after its loop, with \<open>len\<close> the number of tokens (its variable
  \<open>length\<close>), \<open>argv\<close> the cells written by the loop, and the state reached. \<open>argv\<close> was
  allocated with \<open>len\<close> cells, and
  \<open>argv[j] = NULL\<close> is stored in the cell after those written: past the block when no
  token was skipped and the allocator gave no room. \<open>strchr(argv[0], '/')\<close> then reads
  \<open>argv[0]\<close>, which is that null pointer when no token was appended. A bare name is
  replaced by what \<open>resolve\<close> returns, null included, and \<open>execv\<close> is called in either
  case.\<close>

definition excute_launch :: "nat \<Rightarrow> string option list \<Rightarrow> os \<Rightarrow> launch" where
  "excute_launch len argv s1 =
     (if block s1 (len * sizeof_ptr) < (length argv + 1) * sizeof_ptr
      then Overflowed s1
      else (case argv of
              [] \<Rightarrow> Segfaulted s1
            | None # _ \<Rightarrow> Segfaulted s1
            | Some a0 # rest \<Rightarrow>
                if CHR ''/'' \<notin> set a0 then
                  (case resolve s1 a0 of
                     Segfault \<Rightarrow> Segfaulted s1
                   | Heap_overflow \<Rightarrow> Overflowed s1
                   | Done a0' \<Rightarrow> sys_execv s1 a0' (a0' # rest))
                else sys_execv s1 (Some a0) (Some a0 # rest)))"

definition excute :: "os \<Rightarrow> string list \<Rightarrow> launch" where
  "excute s tokens =
     (case excute_loop tokens 0 [] s of
        Segfault \<Rightarrow> Segfaulted s
      | Heap_overflow \<Rightarrow> Overflowed s
      | Done (argv, s1) \<Rightarrow> excute_launch (nat (tokens_get_length tokens)) argv s1)"

subsection \<open>The shell process: globals, signal dispositions, built-ins\<close>

text \<open>The globals of \<open>shell.c\<close> that the loop reads or writes, the prompt counter of
  \<open>main\<close>, and the dispositions of the two signals the shell sets.\<close>

record shell =
  shell_is_interactive :: bool
  child_pid :: int
  line_num :: int
  sigint :: disposition
  sigttou :: disposition

text \<open>\<open>handler\<close> ignores its argument and sends \<open>SIGINT\<close> to the pid in \<open>child_pid\<close>.\<close>

definition handler :: "shell \<Rightarrow> os \<Rightarrow> os" where
  "handler sh s = log (Kill (child_pid sh) SIGINT) s"

definition cmd_table :: "string list" where
  "cmd_table = [''?'', ''exit'', ''cd'', ''pwd'', ''wait'']"

fun lookup_from :: "nat \<Rightarrow> string list \<Rightarrow> string option \<Rightarrow> int" where
  "lookup_from i [] cmd = - 1"
| "lookup_from i (c # cs) cmd =
     (if cmd \<noteq> None \<and> cmd = Some c then int i else lookup_from (i + 1) cs cmd)"

definition lookup :: "string option \<Rightarrow> int" where
  "lookup cmd = lookup_from 0 cmd_table cmd"

text \<open>What becomes of a process: its image is replaced by a program, it dies of a
  null dereference, it has stored past a heap block, it exits, or it is back at the top
  of the read loop of \<open>main\<close>.\<close>

datatype fate =
    Running string "string option list" os
  | Crashed os
  | Corrupted os
  | Exited int
  | Prompting shell os

definition cannot_run :: string where
  "cannot_run = ''This shell doesn'' @ [CHR 0x27] @ ''t know how to run programs.'' @ [CHR 0x0A]"

text \<open>The end of the loop body: the prompt, when interactive, and back to \<open>fgets\<close>.\<close>

definition next_prompt :: "shell \<Rightarrow> os \<Rightarrow> fate" where
  "next_prompt sh s =
     (if shell_is_interactive sh
      then Prompting (sh\<lparr>line_num := line_num sh + 1\<rparr>)
             (log (Prompt (line_num sh + 1)) s)
      else Prompting sh s)"

text \<open>The built-ins are outside the execution core: \<open>exit\<close> ends the shell, the others
  are recorded as one call and return to the loop.\<close>

definition run_builtin :: "int \<Rightarrow> shell \<Rightarrow> os \<Rightarrow> fate" where
  "run_builtin fundex sh s =
     (if fundex = 1 then Exited 0 else next_prompt sh (log (Builtin fundex) s))"

subsection \<open>\<open>main\<close>: one iteration of the read loop\<close>

text \<open>What the child does with the way \<open>excute\<close> ended: \<open>if (excute(tokens) == -1)\<close> it
  prints the message, and with no \<open>exit\<close> it goes on to the end of the loop body.\<close>

definition child_fate :: "shell \<Rightarrow> launch \<Rightarrow> fate" where
  "child_fate sh l =
     (case l of
        Replaced p argv s' \<Rightarrow> Running p argv s'
      | Returned status s' \<Rightarrow>
          next_prompt sh (if status = - 1 then log (Print cannot_run) s' else s')
      | Segfaulted s' \<Rightarrow> Crashed s'
      | Overflowed s' \<Rightarrow> Corrupted s')"

text \<open>The statements after \<open>fork\<close>, as run by the process in which \<open>fork\<close> returned
  \<open>pid\<close>: the child (\<open>pid = 0\<close>) calls \<open>excute\<close>; the parent (\<open>pid > 0\<close>) of a foreground
  command records the pid, sets the two dispositions and waits.\<close>

definition after_fork :: "int \<Rightarrow> int \<Rightarrow> shell \<Rightarrow> os \<Rightarrow> string list \<Rightarrow> fate" where
  "after_fork pid background sh s tokens =
     (if pid = 0 then child_fate sh (excute s tokens)
      else if pid > 0 then
        (if background = 0 then
           next_prompt (sh\<lparr>child_pid := pid, sigint := Handler, sigttou := SIG_IGN\<rparr>)
             (log (Waitpid pid)
               (log (Sigaction SIGINT Handler)
                 (log (Signal_call SIGTTOU SIG_IGN)
                   (log (Setpgid pid pid) s))))
         else next_prompt sh s)
      else next_prompt sh s)"

text \<open>Parent and child have each their own descriptor table and record of calls, and
  one file system. \<open>left_by\<close> is the file system as the child leaves it: as the program
  it was replaced by leaves it, or as its own calls left it when it died or went back to
  the loop. \<open>after_wait\<close> gives it to the shell that comes back from \<open>waitpid\<close>. The shell
  does not wait for a background child, which runs on while the shell prompts.\<close>

definition left_by :: "os \<Rightarrow> fate \<Rightarrow> (string \<rightharpoonup> inode)" where
  "left_by s child =
     (case child of
        Running p argv sc \<Rightarrow> program sc p argv (files sc)
      | Crashed sc \<Rightarrow> files sc
      | Corrupted sc \<Rightarrow> files sc
      | Exited n \<Rightarrow> files s
      | Prompting shc sc \<Rightarrow> files sc)"

definition after_wait :: "(string \<rightharpoonup> inode) \<Rightarrow> fate \<Rightarrow> fate" where
  "after_wait fs parent =
     (case parent of
        Prompting sh s \<Rightarrow> Prompting sh (s\<lparr>files := fs\<rparr>)
      | Running p argv s \<Rightarrow> Running p argv s
      | Crashed s \<Rightarrow> Crashed s
      | Corrupted s \<Rightarrow> Corrupted s
      | Exited n \<Rightarrow> Exited n)"

text \<open>One iteration on a tokenized line. \<open>forked\<close> is what \<open>fork\<close> returns in the shell:
  the pid of the new child, or -1. The result is the fate of the shell and, when a
  child was created, the fate of the child.\<close>

definition main_body :: "int \<Rightarrow> shell \<Rightarrow> os \<Rightarrow> string list \<Rightarrow> fate \<times> fate option" where
  "main_body forked sh s tokens =
     (let fundex = lookup (tokens_get_token tokens 0) in
      if fundex \<ge> 0 then (run_builtin fundex sh s, None)
      else
        (case star (tokens_get_token tokens (tokens_get_length tokens - 1)) of
           Segfault \<Rightarrow> (Crashed s, None)
         | Heap_overflow \<Rightarrow> (Corrupted s, None)
         | Done c \<Rightarrow>
             (let background = (if c = CHR ''&'' then 1 else 0);
                  child = after_fork 0 background sh (log (Fork 0) s) tokens;
                  parent = after_fork forked background sh (log (Fork forked) s) tokens
              in (if forked > 0 \<and> background = 0
                  then after_wait (left_by s child) parent
                  else parent,
                  if forked > 0 then Some child else None))))"

subsection \<open>Notions used in the statements\<close>

text \<open>The test of the loop of \<open>excute\<close> on the first character of a token.\<close>

definition is_redirect :: "string \<Rightarrow> bool" where
  "is_redirect tok = (first_char tok = CHR ''>'' \<or> first_char tok = CHR ''<'')"

text \<open>The two redirection branches of the loop, as one function of the first character
  \<open>c\<close> of the operator token and of the pointer \<open>file\<close> read at \<open>i+1\<close>: the \<open>open\<close>
  call, and the \<open>open\<close> call followed by \<open>dup2\<close>. Lemma \<open>excute_loop_redirect\<close> below
  shows that the loop does exactly this.\<close>

definition redirect_open :: "char \<Rightarrow> string option \<Rightarrow> os \<Rightarrow> int \<times> os" where
  "redirect_open c file s =
     (if c = CHR ''<'' then sys_open s file {O_RDONLY} None
      else sys_open s file {O_WRONLY, O_CREAT} (Some S_IRWXU))"

definition redirect :: "char \<Rightarrow> string option \<Rightarrow> os \<Rightarrow> os" where
  "redirect c file s =
     (let r = redirect_open c file s
      in snd (sys_dup2 (snd r) (fst r) (if c = CHR ''<'' then 0 else 1)))"

text \<open>The indices that the loop of \<open>excute\<close> takes: started at \<open>i\<close>, it inspects the token
  at \<open>k\<close>, as an argument or as an operator. A token right after an operator is not
  inspected: the loop steps over it.\<close>

function inspects :: "string list \<Rightarrow> nat \<Rightarrow> nat \<Rightarrow> bool" where
  "inspects tokens i k =
     (if i < length tokens \<and> i < k
      then inspects tokens (if is_redirect (tokens ! i) then i + 2 else i + 1) k
      else i = k \<and> k < length tokens)"
  by pat_completeness auto
termination
  by (relation "measure (\<lambda>(tokens, i, k). k - i)") auto

text \<open>The allocator of the GNU C library on a 64-bit system: chunks of 16-byte steps with
  an 8-byte header, the smallest holding 24 bytes.\<close>

definition glibc_usable :: "nat \<Rightarrow> nat" where
  "glibc_usable n = max 24 (((n + 23) div 16) * 16 - 8)"

text \<open>A small system for the concrete runs: \<open>PATH=/bin\<close>, the programs \<open>/bin/ls\<close> and
  \<open>/bin/cat\<close> (mode 0755), which leave the files as they find them, a file \<open>out.txt\<close>
  (mode 0644) holding \<open>old\<close>, the three standard descriptors on the terminal, that
  allocator; and a shell that has run no command yet.\<close>

definition demo_os :: os where
  "demo_os =
     \<lparr>env_PATH = Some ''/bin'',
      files = [''/bin/ls'' \<mapsto> \<lparr>contents = ''ELF'', perm = 493\<rparr>,
               ''/bin/cat'' \<mapsto> \<lparr>contents = ''ELF'', perm = 493\<rparr>,
               ''out.txt'' \<mapsto> \<lparr>contents = ''old'', perm = 420\<rparr>],
      fdt = [0 \<mapsto> ''tty'', 1 \<mapsto> ''tty'', 2 \<mapsto> ''tty''],
      next_fd = 3,
      trace = [],
      usable_size = glibc_usable,
      program = (\<lambda>p argv fs. fs)\<rparr>"

definition demo_shell :: shell where
  "demo_shell =
     \<lparr>shell_is_interactive = False, child_pid = 0, line_num = 0,
      sigint = SIG_DFL, sigttou = SIG_DFL\<rparr>"

section \<open>Properties\<close>

subsection \<open>The loop of \<open>excute\<close>, step by step\<close>

declare excute_loop.simps [simp del]

lemma tokens_get_token_in_range:
  "i < length tokens \<Longrightarrow> tokens_get_token tokens (int i) = Some (tokens ! i)"
  by (simp add: tokens_get_token_def)

lemma tokens_get_token_next:
  "tokens_get_token tokens (int i + 1) =
     (if Suc i < length tokens then Some (tokens ! Suc i) else None)"
  by (auto simp: tokens_get_token_def nat_add_distrib)

lemma excute_loop_end:
  "length tokens \<le> i \<Longrightarrow> excute_loop tokens i argv s = Done (argv, s)"
  by (subst excute_loop.simps) (simp add: tokens_get_length_def)

lemma excute_loop_arg:
  "i < length tokens \<Longrightarrow> \<not> is_redirect (tokens ! i) \<Longrightarrow>
   excute_loop tokens i argv s = excute_loop tokens (i + 1) (argv @ [Some (tokens ! i)]) s"
  by (subst excute_loop.simps)
     (simp add: tokens_get_length_def tokens_get_token_in_range star_def is_redirect_def)

lemma excute_loop_in:
  "i < length tokens \<Longrightarrow> first_char (tokens ! i) = CHR ''<'' \<Longrightarrow>
   excute_loop tokens i argv s =
     excute_loop tokens (i + 2) argv
       (snd (sys_dup2
               (snd (sys_open s (tokens_get_token tokens (int i + 1)) {O_RDONLY} None))
               (fst (sys_open s (tokens_get_token tokens (int i + 1)) {O_RDONLY} None)) 0))"
  by (subst excute_loop.simps)
     (simp add: tokens_get_length_def tokens_get_token_in_range star_def Let_def)

lemma excute_loop_out:
  "i < length tokens \<Longrightarrow> first_char (tokens ! i) = CHR ''>'' \<Longrightarrow>
   excute_loop tokens i argv s =
     excute_loop tokens (i + 2) argv
       (snd (sys_dup2
               (snd (sys_open s (tokens_get_token tokens (int i + 1))
                       {O_WRONLY, O_CREAT} (Some S_IRWXU)))
               (fst (sys_open s (tokens_get_token tokens (int i + 1))
                       {O_WRONLY, O_CREAT} (Some S_IRWXU))) 1))"
  by (subst excute_loop.simps)
     (simp add: tokens_get_length_def tokens_get_token_in_range star_def Let_def)

text \<open>A stretch of tokens without a redirection character is copied cell by cell.\<close>

lemma excute_loop_plain:
  assumes "\<forall>t \<in> set tokens. \<not> is_redirect t"
  shows "i \<le> length tokens \<Longrightarrow>
         excute_loop tokens i argv s = Done (argv @ map Some (drop i tokens), s)"
proof (induction "length tokens - i" arbitrary: i argv)
  case 0
  then show ?case by (simp add: excute_loop_end)
next
  case (Suc n)
  then have lt: "i < length tokens" by simp
  with assms have nr: "\<not> is_redirect (tokens ! i)" by simp
  have "n = length tokens - (i + 1)" using Suc.hyps(2) by simp
  then have "excute_loop tokens (i + 1) (argv @ [Some (tokens ! i)]) s
      = Done ((argv @ [Some (tokens ! i)]) @ map Some (drop (i + 1) tokens), s)"
    using Suc.hyps(1) lt by simp
  then show ?case
    using lt nr by (simp add: excute_loop_arg Cons_nth_drop_Suc [symmetric])
qed

text \<open>Both redirection branches at once; the loop from index \<open>i\<close> is the loop from 0 on
  the tokens from \<open>i\<close> on; the loop always runs to its end and only extends \<open>argv\<close>.\<close>

lemma excute_loop_redirect:
  assumes "i < length tokens" "is_redirect (tokens ! i)"
  shows "excute_loop tokens i argv s =
         excute_loop tokens (i + 2) argv
           (redirect (first_char (tokens ! i)) (tokens_get_token tokens (int i + 1)) s)"
proof (cases "first_char (tokens ! i) = CHR ''<''")
  case True
  then show ?thesis
    using assms(1) by (simp add: excute_loop_in redirect_def redirect_open_def Let_def)
next
  case False
  with assms(2) have "first_char (tokens ! i) = CHR ''>''" by (simp add: is_redirect_def)
  then show ?thesis
    using assms(1) by (simp add: excute_loop_out redirect_def redirect_open_def Let_def)
qed

lemma tokens_get_token_drop:
  "tokens_get_token (drop i tokens) (int k + 1) = tokens_get_token tokens (int (i + k) + 1)"
  by (auto simp: tokens_get_token_def nat_add_distrib add.commute)

lemma excute_loop_shift:
  "excute_loop tokens (i + k) argv s = excute_loop (drop i tokens) k argv s"
proof (induction "length tokens - (i + k)" arbitrary: k argv s rule: less_induct)
  case less
  show ?case
  proof (cases "i + k < length tokens")
    case False
    then show ?thesis by (simp add: excute_loop_end)
  next
    case True
    then have k: "k < length (drop i tokens)" and nth: "drop i tokens ! k = tokens ! (i + k)"
      by simp_all
    show ?thesis
    proof (cases "is_redirect (tokens ! (i + k))")
      case False
      have "excute_loop tokens (i + (k + 1)) (argv @ [Some (tokens ! (i + k))]) s
          = excute_loop (drop i tokens) (k + 1) (argv @ [Some (tokens ! (i + k))]) s"
        using True by (intro less) simp
      then show ?thesis
        using True False k nth by (simp add: excute_loop_arg add.assoc)
    next
      case red: True
      let ?s = "redirect (first_char (tokens ! (i + k))) (tokens_get_token tokens (int (i + k) + 1)) s"
      have "excute_loop tokens (i + (k + 2)) argv ?s = excute_loop (drop i tokens) (k + 2) argv ?s"
        using True by (intro less) simp
      moreover have "excute_loop tokens (i + k) argv s = excute_loop tokens (i + k + 2) argv ?s"
        using True red by (rule excute_loop_redirect)
      moreover have "excute_loop (drop i tokens) k argv s = excute_loop (drop i tokens) (k + 2) argv ?s"
        using excute_loop_redirect [of k "drop i tokens" argv s] k red nth
        by (simp add: tokens_get_token_drop)
      ultimately show ?thesis by (simp add: add.assoc)
    qed
  qed
qed

lemma excute_loop_drop:
  "excute_loop tokens i argv s = excute_loop (drop i tokens) 0 argv s"
  using excute_loop_shift [of tokens i 0 argv s] by simp

lemma excute_loop_total:
  "\<exists>a s'. excute_loop tokens i argv s = Done (argv @ a, s')"
proof (induction "length tokens - i" arbitrary: i argv s rule: less_induct)
  case less
  show ?case
  proof (cases "i < length tokens")
    case False
    then show ?thesis by (simp add: excute_loop_end)
  next
    case True
    show ?thesis
    proof (cases "is_redirect (tokens ! i)")
      case False
      have "\<exists>a s'. excute_loop tokens (i + 1) (argv @ [Some (tokens ! i)]) s
                 = Done ((argv @ [Some (tokens ! i)]) @ a, s')"
        using True by (intro less) simp
      then show ?thesis
        using True False by (auto simp: excute_loop_arg)
    next
      case red: True
      let ?s = "redirect (first_char (tokens ! i)) (tokens_get_token tokens (int i + 1)) s"
      have "\<exists>a s'. excute_loop tokens (i + 2) argv ?s = Done (argv @ a, s')"
        using True by (intro less) simp
      then show ?thesis
        using excute_loop_redirect [OF True red, of argv s] by simp
    qed
  qed
qed

lemmas run_defs =
  is_redirect_def first_char_def tokens_get_token_def tokens_get_length_def star_def
  sys_open_def open_effect_def sys_dup2_def sys_execv_def access_F_OK_def log_def
  owner_r_def owner_w_def owner_x_def S_IRWXU_def demo_os_def demo_shell_def
  redirect_def redirect_open_def

subsection \<open>C3: token sequences without redirection\<close>

text \<open>
  C3, as stated, speaks of sequences with no token equal to \<open><\<close> or \<open>>\<close>. The loop tests
  the first character only, so \<open>echo >out out.txt\<close> has no such token and yet only \<open>echo\<close>
  reaches the argument vector: \<open>>out\<close> is taken as an operator and \<open>out.txt\<close> is opened and
  duplicated onto descriptor 1.
\<close>

theorem C3_counterexample:
  "''echo'' \<noteq> ''<'' \<and> ''echo'' \<noteq> ''>''
   \<and> ''>out'' \<noteq> ''<'' \<and> ''>out'' \<noteq> ''>''
   \<and> ''out.txt'' \<noteq> ''<'' \<and> ''out.txt'' \<noteq> ''>''
   \<and> excute_loop [''echo'', ''>out'', ''out.txt''] 0 [] demo_os
       = Done ([Some ''echo''],
               demo_os\<lparr>fdt := (fdt demo_os)(3 \<mapsto> ''out.txt'', 1 \<mapsto> ''out.txt''),
                        next_fd := 4,
                        trace := [Open (Some ''out.txt'') {O_WRONLY, O_CREAT} (Some S_IRWXU) 3,
                                  Dup2 3 1]\<rparr>)
   \<and> [Some ''echo''] \<noteq> map Some [''echo'', ''>out'', ''out.txt'']"
  by (simp add: excute_loop_arg excute_loop_out excute_loop_end run_defs)

text \<open>
  C3, amended: for every token sequence in which no token begins with \<open><\<close> or \<open>>\<close>, the
  argument vector built by the loop of \<open>excute\<close> is the token sequence itself, and the loop
  leaves the system state as it found it: no file is opened, no descriptor duplicated, no
  call recorded.
\<close>

theorem C3_identity_without_redirection:
  assumes "\<forall>t \<in> set tokens. first_char t \<noteq> CHR ''<'' \<and> first_char t \<noteq> CHR ''>''"
  shows "excute_loop tokens 0 [] s = Done (map Some tokens, s)"
  using excute_loop_plain [of tokens 0 "[]" s] assms by (simp add: is_redirect_def)

theorem C3_identity_without_redirection_witness:
  "first_char ''echo'' \<noteq> CHR ''<'' \<and> first_char ''echo'' \<noteq> CHR ''>''
   \<and> first_char ''hi'' \<noteq> CHR ''<'' \<and> first_char ''hi'' \<noteq> CHR ''>''
   \<and> excute_loop [''echo'', ''hi''] 0 [] demo_os = Done ([Some ''echo'', Some ''hi''], demo_os)"
  using C3_identity_without_redirection [of "[''echo'', ''hi'']" demo_os]
  by (simp add: first_char_def)

subsection \<open>System calls that fail\<close>

lemma sys_open_fails:
  assumes "fst (sys_open s file flags mode) = - 1"
  shows "snd (sys_open s file flags mode) = log (Open file flags mode (- 1)) s"
  using assms by (auto simp: sys_open_def split: option.splits prod.splits)

lemma sys_dup2_minus_one:
  "snd (sys_dup2 s (- 1) newfd) = log (Dup2 (- 1) newfd) s"
  by (simp add: sys_dup2_def)

lemma redirect_failed_open:
  assumes "fst (redirect_open c file s) = - 1"
  shows "redirect c file s =
           s\<lparr>trace := trace s @
              [Open file (if c = CHR ''<'' then {O_RDONLY} else {O_WRONLY, O_CREAT})
                    (if c = CHR ''<'' then None else Some S_IRWXU) (- 1),
               Dup2 (- 1) (if c = CHR ''<'' then 0 else 1)]\<rparr>"
proof -
  have "snd (redirect_open c file s)
        = log (Open file (if c = CHR ''<'' then {O_RDONLY} else {O_WRONLY, O_CREAT})
                    (if c = CHR ''<'' then None else Some S_IRWXU) (- 1)) s"
    using assms by (auto simp: redirect_open_def sys_open_fails)
  then show ?thesis
    using assms by (simp add: redirect_def Let_def sys_dup2_minus_one log_def)
qed

subsection \<open>C9: an operator is recognised by its first character\<close>

text \<open>
  C9, as stated, speaks of every token whose first character is \<open><\<close> or \<open>>\<close>. A token
  that directly follows an operator is taken as its file name without being tested: in
  \<open>cat < >x y\<close> the token \<open>>x\<close> is opened for reading, it is not an operator, and the token
  after it, \<open>y\<close>, stays in the argument vector.
\<close>

theorem C9_counterexample:
  "first_char ([''cat'', ''<'', ''>x'', ''y''] ! 2) = CHR ''>''
   \<and> [''cat'', ''<'', ''>x'', ''y''] ! 3 = ''y''
   \<and> excute_loop [''cat'', ''<'', ''>x'', ''y''] 0 [] demo_os
       = Done ([Some ''cat'', Some ''y''],
               demo_os\<lparr>trace := [Open (Some ''>x'') {O_RDONLY} None (- 1), Dup2 (- 1) 0]\<rparr>)"
  by (simp add: excute_loop_arg excute_loop_in excute_loop_end run_defs)

text \<open>
  C9, amended: for every token that the loop of \<open>excute\<close> inspects (index \<open>i\<close> of the loop,
  so a token not taken as the file name of an operator before it) and whose first
  character is \<open><\<close> or \<open>>\<close>, whatever follows that character: the token is not appended to
  the argument vector, the redirection chosen by that first character is performed on the
  token at \<open>i+1\<close> (the null pointer when there is none), and the loop goes on with the
  tokens after that one.
\<close>

theorem C9_operator_by_first_character:
  assumes "i < length tokens"
      and "first_char (tokens ! i) = CHR ''<'' \<or> first_char (tokens ! i) = CHR ''>''"
  shows "excute_loop tokens i argv s =
         excute_loop (drop (i + 2) tokens) 0 argv
           (redirect (first_char (tokens ! i)) (tokens_get_token tokens (int i + 1)) s)"
proof -
  have "is_redirect (tokens ! i)"
    using assms(2) by (auto simp: is_redirect_def)
  then have "excute_loop tokens i argv s =
      excute_loop tokens (i + 2) argv
        (redirect (first_char (tokens ! i)) (tokens_get_token tokens (int i + 1)) s)"
    using assms(1) by (simp add: excute_loop_redirect)
  also have "\<dots> = excute_loop (drop (i + 2) tokens) 0 argv
        (redirect (first_char (tokens ! i)) (tokens_get_token tokens (int i + 1)) s)"
    by (rule excute_loop_drop)
  finally show ?thesis .
qed

theorem C9_operator_by_first_character_witness:
  "(1::nat) < length [''sort'', ''<2'', ''in.txt'', ''-r'']
   \<and> (first_char ([''sort'', ''<2'', ''in.txt'', ''-r''] ! 1) = CHR ''<''
        \<or> first_char ([''sort'', ''<2'', ''in.txt'', ''-r''] ! 1) = CHR ''>'')
   \<and> excute_loop [''sort'', ''<2'', ''in.txt'', ''-r''] 1 [Some ''sort''] demo_os
       = excute_loop [''-r''] 0 [Some ''sort''] (redirect CHR ''<'' (Some ''in.txt'') demo_os)
   \<and> excute_loop [''sort'', ''<2'', ''in.txt'', ''-r''] 0 [] demo_os
       = Done ([Some ''sort'', Some ''-r''],
               demo_os\<lparr>trace := [Open (Some ''in.txt'') {O_RDONLY} None (- 1), Dup2 (- 1) 0]\<rparr>)"
  using C9_operator_by_first_character [of 1 "[''sort'', ''<2'', ''in.txt'', ''-r'']" "[Some ''sort'']" demo_os]
  by (simp add: excute_loop_arg excute_loop_in excute_loop_end run_defs)

subsection \<open>The indices of the loop\<close>

declare inspects.simps [simp del]

text \<open>When the loop inspects the token at \<open>k\<close>, it gets there with what it has done on the
  tokens before \<open>k\<close>; its argument vector has at most one cell per token seen, and no
  null cell.\<close>

lemma inspects_here:
  "k < length tokens \<Longrightarrow> inspects tokens k k"
  by (subst inspects.simps) simp

lemma inspects_step:
  "i < k \<Longrightarrow> i < length tokens \<Longrightarrow>
   inspects tokens i k = inspects tokens (if is_redirect (tokens ! i) then i + 2 else i + 1) k"
  by (subst inspects.simps) simp

lemma inspects_bounds:
  "inspects tokens i k \<Longrightarrow> i \<le> k \<and> k < length tokens"
proof (induction "k - i" arbitrary: i rule: less_induct)
  case less
  show ?case
  proof (cases "i < length tokens \<and> i < k")
    case True
    let ?j = "if is_redirect (tokens ! i) then i + 2 else i + 1"
    have "inspects tokens ?j k" using less.prems True by (subst (asm) inspects.simps) simp
    moreover have "k - ?j < k - i" using True by auto
    ultimately have "?j \<le> k \<and> k < length tokens" using less.hyps by blast
    then show ?thesis using True by auto
  next
    case False
    then show ?thesis using less.prems by (subst (asm) inspects.simps) auto
  qed
qed

lemma tokens_get_token_take:
  "Suc i < k \<Longrightarrow> tokens_get_token (take k tokens) (int i + 1) = tokens_get_token tokens (int i + 1)"
  by (auto simp: tokens_get_token_def nat_add_distrib)

lemma excute_loop_split:
  assumes "inspects tokens i k" "excute_loop (take k tokens) i argv s = Done (a, sk)"
  shows "excute_loop tokens i argv s = excute_loop tokens k a sk"
  using assms
proof (induction "k - i" arbitrary: i argv s rule: less_induct)
  case less
  have b: "i \<le> k" "k < length tokens" using inspects_bounds [OF less.prems(1)] by auto
  show ?case
  proof (cases "i = k")
    case True
    then show ?thesis using less.prems(2) b by (simp add: excute_loop_end)
  next
    case False
    then have lt: "i < k" using b by simp
    then have it: "i < length tokens" and ik: "i < length (take k tokens)"
      and nth: "take k tokens ! i = tokens ! i" using b by auto
    let ?j = "if is_redirect (tokens ! i) then i + 2 else i + 1"
    have next_insp: "inspects tokens ?j k"
      using less.prems(1) lt it by (simp add: inspects_step)
    show ?thesis
    proof (cases "is_redirect (tokens ! i)")
      case nr: False
      have e: "excute_loop (take k tokens) (i + 1) (argv @ [Some (tokens ! i)]) s = Done (a, sk)"
        using less.prems(2) excute_loop_arg [of i "take k tokens" argv s] ik nth nr by simp
      have n: "inspects tokens (i + 1) k" using next_insp nr by simp
      have m: "k - (i + 1) < k - i" using lt by simp
      have "excute_loop tokens (i + 1) (argv @ [Some (tokens ! i)]) s = excute_loop tokens k a sk"
        by (rule less.hyps [OF m n e])
      then show ?thesis using it nr by (simp add: excute_loop_arg)
    next
      case red: True
      have insp2: "inspects tokens (i + 2) k" using next_insp red by simp
      then have le2: "i + 2 \<le> k" using inspects_bounds by blast
      let ?s = "redirect (first_char (tokens ! i)) (tokens_get_token tokens (int i + 1)) s"
      have "excute_loop (take k tokens) i argv s = excute_loop (take k tokens) (i + 2) argv ?s"
        using excute_loop_redirect [of i "take k tokens" argv s] ik nth red le2
        by (simp add: tokens_get_token_take)
      then have e: "excute_loop (take k tokens) (i + 2) argv ?s = Done (a, sk)"
        using less.prems(2) by simp
      have m: "k - (i + 2) < k - i" using lt by simp
      have "excute_loop tokens (i + 2) argv ?s = excute_loop tokens k a sk"
        by (rule less.hyps [OF m insp2 e])
      then show ?thesis using excute_loop_redirect [OF it red, of argv s] by simp
    qed
  qed
qed

lemma excute_loop_length:
  "excute_loop tokens i argv s = Done (argv', s') \<Longrightarrow>
   length argv' \<le> length argv + (length tokens - i)"
proof (induction "length tokens - i" arbitrary: i argv s rule: less_induct)
  case less
  show ?case
  proof (cases "i < length tokens")
    case False
    then show ?thesis using less.prems by (simp add: excute_loop_end)
  next
    case True
    show ?thesis
    proof (cases "is_redirect (tokens ! i)")
      case False
      have "excute_loop tokens (i + 1) (argv @ [Some (tokens ! i)]) s = Done (argv', s')"
        using less.prems True False by (simp add: excute_loop_arg)
      moreover have "length tokens - (i + 1) < length tokens - i" using True by simp
      ultimately have "length argv' \<le> length (argv @ [Some (tokens ! i)]) + (length tokens - (i + 1))"
        using less.hyps by blast
      then show ?thesis using True by simp
    next
      case red: True
      let ?s = "redirect (first_char (tokens ! i)) (tokens_get_token tokens (int i + 1)) s"
      have "excute_loop tokens (i + 2) argv ?s = Done (argv', s')"
        using less.prems excute_loop_redirect [OF True red, of argv s] by simp
      moreover have "length tokens - (i + 2) < length tokens - i" using True by simp
      ultimately have "length argv' \<le> length argv + (length tokens - (i + 2))"
        using less.hyps by blast
      then show ?thesis by simp
    qed
  qed
qed

lemma excute_loop_cells:
  "excute_loop tokens i argv s = Done (argv', s') \<Longrightarrow> None \<notin> set argv \<Longrightarrow> None \<notin> set argv'"
proof (induction "length tokens - i" arbitrary: i argv s rule: less_induct)
  case less
  show ?case
  proof (cases "i < length tokens")
    case False
    then show ?thesis using less.prems by (simp add: excute_loop_end)
  next
    case True
    show ?thesis
    proof (cases "is_redirect (tokens ! i)")
      case False
      have e: "excute_loop tokens (i + 1) (argv @ [Some (tokens ! i)]) s = Done (argv', s')"
        using less.prems True False by (simp add: excute_loop_arg)
      have m: "length tokens - (i + 1) < length tokens - i" using True by simp
      have n: "None \<notin> set (argv @ [Some (tokens ! i)])" using less.prems(2) by simp
      show ?thesis by (rule less.hyps [OF m e n])
    next
      case red: True
      let ?s = "redirect (first_char (tokens ! i)) (tokens_get_token tokens (int i + 1)) s"
      have e: "excute_loop tokens (i + 2) argv ?s = Done (argv', s')"
        using less.prems excute_loop_redirect [OF True red, of argv s] by simp
      have m: "length tokens - (i + 2) < length tokens - i" using True by simp
      show ?thesis by (rule less.hyps [OF m e less.prems(2)])
    qed
  qed
qed



lemma excute_loop_trailing_argument:
  assumes "tokens \<noteq> []" "\<not> is_redirect (last tokens)"
      and "inspects tokens 0 (length tokens - 1)"
      and "excute_loop (butlast tokens) 0 [] s = Done (a, s1)"
  shows "excute_loop tokens 0 [] s = Done (a @ [Some (last tokens)], s1)"
proof -
  let ?k = "length tokens - 1"
  have k: "?k < length tokens" and lst: "tokens ! ?k = last tokens"
    using assms(1) by (simp_all add: last_conv_nth)
  have "excute_loop (take ?k tokens) 0 [] s = Done (a, s1)"
    using assms(4) by (simp add: butlast_conv_take)
  then have "excute_loop tokens 0 [] s = excute_loop tokens ?k a s1"
    using assms(3) by (rule excute_loop_split [rotated])
  also have "\<dots> = excute_loop tokens (?k + 1) (a @ [Some (tokens ! ?k)]) s1"
    using k assms(2) lst by (intro excute_loop_arg) simp_all
  finally show ?thesis
    using lst by (simp add: excute_loop_end)
qed

subsection \<open>After the loop, and the loop body of \<open>main\<close>\<close>

lemmas demo_defs = run_defs block_def sizeof_ptr_def glibc_usable_def

lemmas main_defs =
  main_body_def after_fork_def child_fate_def left_by_def after_wait_def next_prompt_def
  run_builtin_def lookup_def cmd_table_def excute_def excute_launch_def resolve_def
  strtok_all_def Let_def

lemma excute_by_loop:
  "excute_loop tokens 0 [] s = Done (argv, s1) \<Longrightarrow>
   excute s tokens = excute_launch (length tokens) argv s1"
  by (simp add: excute_def tokens_get_length_def)

text \<open>\<open>excute\<close> gets to \<open>execv\<close> when the terminating null fits the block of \<open>argv\<close> and the
  name in \<open>argv[0]\<close> is a path, or \<open>resolve\<close> returns for it (a path or the null pointer).\<close>

lemma excute_launch_execv:
  assumes "(length rest + 2) * sizeof_ptr \<le> block s1 (len * sizeof_ptr)"
      and "(if CHR ''/'' \<in> set a0 then Done (Some a0) else resolve s1 a0) = Done p"
  shows "excute_launch len (Some a0 # rest) s1 = sys_execv s1 p (p # rest)"
  using assms by (auto simp: excute_launch_def split: if_splits)

text \<open>On a non-empty line that names no built-in, \<open>main\<close> reads the first character of the
  last token and forks; on an empty line that read dereferences the null pointer.\<close>

lemma last_token:
  "tokens \<noteq> [] \<Longrightarrow>
   star (tokens_get_token tokens (tokens_get_length tokens - 1)) = Done (first_char (last tokens))"
  by (cases tokens rule: rev_cases)
     (auto simp: star_def tokens_get_token_def tokens_get_length_def nth_append)

lemma after_wait_next_prompt:
  "after_wait fs (next_prompt sh s) = next_prompt sh (s\<lparr>files := fs\<rparr>)"
  by (simp add: after_wait_def next_prompt_def log_def)

lemma main_body_forks:
  assumes "tokens \<noteq> []" "lookup (tokens_get_token tokens 0) < 0"
  shows "main_body forked sh s tokens =
          (let background = (if first_char (last tokens) = CHR ''&'' then 1 else 0);
               child = child_fate sh (excute (log (Fork 0) s) tokens);
               parent = after_fork forked background sh (log (Fork forked) s) tokens
           in (if forked > 0 \<and> background = 0 then after_wait (left_by s child) parent else parent,
               if forked > 0 then Some child else None))"
  using assms by (simp add: main_body_def last_token Let_def after_fork_def)

lemma main_body_empty:
  "main_body forked sh s [] = (Crashed s, None)"
  by (simp add: main_body_def lookup_def cmd_table_def tokens_get_token_def
        tokens_get_length_def star_def)

lemma main_body_foreground:
  assumes "tokens \<noteq> []" "lookup (tokens_get_token tokens 0) < 0"
      and "first_char (last tokens) \<noteq> CHR ''&''" "forked > 0"
  shows "main_body forked sh s tokens =
          (let child = child_fate sh (excute (log (Fork 0) s) tokens)
           in (next_prompt (sh\<lparr>child_pid := forked, sigint := Handler, sigttou := SIG_IGN\<rparr>)
                 (s\<lparr>files := left_by s child,
                    trace := trace s @
                      [Fork forked, Setpgid forked forked, Signal_call SIGTTOU SIG_IGN,
                       Sigaction SIGINT Handler, Waitpid forked]\<rparr>),
               Some child))"
  using assms(3,4)
  by (cases s)
     (simp add: main_body_forks [OF assms(1,2)] Let_def after_fork_def after_wait_next_prompt log_def)

lemma main_body_background:
  assumes "tokens \<noteq> []" "lookup (tokens_get_token tokens 0) < 0"
      and "first_char (last tokens) = CHR ''&''" "forked > 0"
  shows "main_body forked sh s tokens =
          (next_prompt sh (log (Fork forked) s),
           Some (child_fate sh (excute (log (Fork 0) s) tokens)))"
  using assms(3,4)
  by (simp add: main_body_forks [OF assms(1,2)] Let_def after_fork_def)

text \<open>Three runs on the small system. With three tokens and none skipped, the terminating
  null is stored past the 24 bytes of \<open>argv\<close>; a long name is appended past the 24 bytes
  of the candidate; and a file created by the child is there for the shell when
  \<open>waitpid\<close> returns.\<close>

lemma three_bare_tokens_overflow:
  "excute demo_os [''ls'', ''-l'', ''&'']
     = Overflowed demo_os"
  by (simp add: excute_def excute_launch_def excute_loop_arg excute_loop_end demo_defs)

lemma long_name_overflow:
  "resolve demo_os ''a-program-with-a-long-name'' = Heap_overflow"
  by (simp add: resolve_def strtok_all_def demo_defs)

lemma child_creates_file_seen_by_shell:
  "main_body 7 demo_shell demo_os [''ls'', ''>'', ''new.txt''] =
     (Prompting (demo_shell\<lparr>child_pid := 7, sigint := Handler, sigttou := SIG_IGN\<rparr>)
        (demo_os\<lparr>files := (files demo_os)(''new.txt'' \<mapsto> \<lparr>contents = [], perm = 448\<rparr>),
                 trace := [Fork 7, Setpgid 7 7, Signal_call SIGTTOU SIG_IGN,
                           Sigaction SIGINT Handler, Waitpid 7]\<rparr>),
      Some (Running ''/bin/ls'' [Some ''/bin/ls'']
        (demo_os\<lparr>files := (files demo_os)(''new.txt'' \<mapsto> \<lparr>contents = [], perm = 448\<rparr>),
                 fdt := (fdt demo_os)(3 \<mapsto> ''new.txt'', 1 \<mapsto> ''new.txt''),
                 next_fd := 4,
                 trace := [Fork 0, Open (Some ''new.txt'') {O_WRONLY, O_CREAT} (Some S_IRWXU) 3,
                           Dup2 3 1, Execv (Some ''/bin/ls'') [Some ''/bin/ls'']]\<rparr>)))"
  by (simp add: main_defs excute_loop_arg excute_loop_out excute_loop_end demo_defs)

subsection \<open>C6: a redirection target that fails to open\<close>

text \<open>
  C6, as stated, has the child report the error and terminate instead of calling
  \<open>execv\<close>. For \<open>cat < missing.txt\<close>, with no such file, \<open>open\<close> and \<open>dup2\<close> fail, nothing
  is printed, and \<open>excute\<close> replaces the child by \<open>/bin/cat\<close> with descriptor 0 still on
  the terminal.
\<close>

theorem C6_counterexample:
  "files demo_os ''missing.txt'' = None
   \<and> excute demo_os [''cat'', ''<'', ''missing.txt'']
       = Replaced ''/bin/cat'' [Some ''/bin/cat'']
           (demo_os\<lparr>trace := [Open (Some ''missing.txt'') {O_RDONLY} None (- 1),
                              Dup2 (- 1) 0,
                              Execv (Some ''/bin/cat'') [Some ''/bin/cat'']]\<rparr>)
   \<and> fdt demo_os 0 = Some ''tty''"
  by (simp add: excute_def excute_launch_def resolve_def strtok_all_def
        excute_loop_arg excute_loop_in excute_loop_end demo_defs)

text \<open>
  C6, amended: for every command in which the loop of \<open>excute\<close> inspects a redirection
  operator whose target fails to open (\<open>open\<close> returns -1), the child neither reports the
  failure nor terminates because of it: \<open>dup2\<close> is called with -1 and fails, so that only
  the two failed calls are recorded and the descriptor table, the file system and the
  environment stay as the tokens before the operator left them; the loop goes on with
  the tokens after the file name; and whenever it then ends with a non-empty argument
  vector whose first cell is a path, or a bare name for which \<open>resolve\<close> returns, \<open>excute\<close>
  calls \<open>execv\<close> with that vector, in the state so reached.
\<close>

theorem C6_failed_open_is_ignored:
  assumes "inspects tokens 0 i"
      and "is_redirect (tokens ! i)"
      and "excute_loop (take i tokens) 0 [] s = Done (a, si)"
      and "fst (redirect_open (first_char (tokens ! i)) (tokens_get_token tokens (int i + 1)) si) = - 1"
      and "excute_loop (drop (i + 2) tokens) 0 a
             (si\<lparr>trace := trace si @
                [Open (tokens_get_token tokens (int i + 1))
                   (if first_char (tokens ! i) = CHR ''<'' then {O_RDONLY} else {O_WRONLY, O_CREAT})
                   (if first_char (tokens ! i) = CHR ''<'' then None else Some S_IRWXU) (- 1),
                 Dup2 (- 1) (if first_char (tokens ! i) = CHR ''<'' then 0 else 1)]\<rparr>)
           = Done (Some a0 # rest, s1)"
      and "(if CHR ''/'' \<in> set a0 then Done (Some a0) else resolve s1 a0) = Done p"
  shows "excute s tokens = sys_execv s1 p (p # rest)"
proof -
  let ?si = "si\<lparr>trace := trace si @
                [Open (tokens_get_token tokens (int i + 1))
                   (if first_char (tokens ! i) = CHR ''<'' then {O_RDONLY} else {O_WRONLY, O_CREAT})
                   (if first_char (tokens ! i) = CHR ''<'' then None else Some S_IRWXU) (- 1),
                 Dup2 (- 1) (if first_char (tokens ! i) = CHR ''<'' then 0 else 1)]\<rparr>"
  have i: "i < length tokens" using inspects_bounds [OF assms(1)] by simp
  have "excute_loop tokens 0 [] s = excute_loop tokens i a si"
    using assms(1,3) by (rule excute_loop_split)
  also have "\<dots> = excute_loop tokens (i + 2) a
      (redirect (first_char (tokens ! i)) (tokens_get_token tokens (int i + 1)) si)"
    using i assms(2) by (rule excute_loop_redirect)
  also have "\<dots> = excute_loop tokens (i + 2) a ?si"
    by (simp only: redirect_failed_open [OF assms(4)])
  also have "\<dots> = excute_loop (drop (i + 2) tokens) 0 a ?si"
    by (rule excute_loop_drop)
  finally have loop: "excute_loop tokens 0 [] s = Done (Some a0 # rest, s1)"
    using assms(5) by simp
  have "length a \<le> i"
    using excute_loop_length [OF assms(3)] i by simp
  moreover have "length (Some a0 # rest) \<le> length a + (length (drop (i + 2) tokens) - 0)"
    using assms(5) by (rule excute_loop_length)
  ultimately have "length rest + 2 \<le> length tokens"
    using i by simp
  then have "(length rest + 2) * sizeof_ptr \<le> block s1 (length tokens * sizeof_ptr)"
    by (simp add: block_def sizeof_ptr_def max_def)
  then have "excute_launch (length tokens) (Some a0 # rest) s1 = sys_execv s1 p (p # rest)"
    using assms(6) by (rule excute_launch_execv)
  then show ?thesis
    using excute_by_loop [OF loop] by simp
qed

theorem C6_failed_open_is_ignored_witness:
  "inspects [''cat'', ''-n'', ''<'', ''missing.txt''] 0 2
   \<and> is_redirect ([''cat'', ''-n'', ''<'', ''missing.txt''] ! 2)
   \<and> excute_loop (take 2 [''cat'', ''-n'', ''<'', ''missing.txt'']) 0 [] demo_os
       = Done ([Some ''cat'', Some ''-n''], demo_os)
   \<and> fst (redirect_open (first_char ([''cat'', ''-n'', ''<'', ''missing.txt''] ! 2))
             (tokens_get_token [''cat'', ''-n'', ''<'', ''missing.txt''] (int 2 + 1)) demo_os) = - 1
   \<and> resolve (demo_os\<lparr>trace := [Open (Some ''missing.txt'') {O_RDONLY} None (- 1),
                                  Dup2 (- 1) 0]\<rparr>) ''cat'' = Done (Some ''/bin/cat'')
   \<and> excute demo_os [''cat'', ''-n'', ''<'', ''missing.txt'']
       = Replaced ''/bin/cat'' [Some ''/bin/cat'', Some ''-n'']
           (demo_os\<lparr>trace := [Open (Some ''missing.txt'') {O_RDONLY} None (- 1),
                              Dup2 (- 1) 0,
                              Execv (Some ''/bin/cat'') [Some ''/bin/cat'', Some ''-n'']]\<rparr>)"
proof -
  let ?tokens = "[''cat'', ''-n'', ''<'', ''missing.txt'']"
  let ?s1 = "demo_os\<lparr>trace := [Open (Some ''missing.txt'') {O_RDONLY} None (- 1), Dup2 (- 1) 0]\<rparr>"
  have insp: "inspects ?tokens 0 2"
    by (simp add: inspects.simps is_redirect_def first_char_def)
  have red: "is_redirect (?tokens ! 2)"
    by (simp add: is_redirect_def first_char_def)
  have pre: "excute_loop (take 2 ?tokens) 0 [] demo_os = Done ([Some ''cat'', Some ''-n''], demo_os)"
    by (simp add: excute_loop_arg excute_loop_end demo_defs)
  have fail: "fst (redirect_open (first_char (?tokens ! 2))
             (tokens_get_token ?tokens (int 2 + 1)) demo_os) = - 1"
    by (simp add: demo_defs)
  have rest: "excute_loop (drop (2 + 2) ?tokens) 0 [Some ''cat'', Some ''-n'']
             (demo_os\<lparr>trace := trace demo_os @
                [Open (tokens_get_token ?tokens (int 2 + 1))
                   (if first_char (?tokens ! 2) = CHR ''<'' then {O_RDONLY} else {O_WRONLY, O_CREAT})
                   (if first_char (?tokens ! 2) = CHR ''<'' then None else Some S_IRWXU) (- 1),
                 Dup2 (- 1) (if first_char (?tokens ! 2) = CHR ''<'' then 0 else 1)]\<rparr>)
           = Done (Some ''cat'' # [Some ''-n''], ?s1)"
    by (simp add: excute_loop_end demo_defs)
  have res: "resolve ?s1 ''cat'' = Done (Some ''/bin/cat'')"
    by (simp add: resolve_def strtok_all_def demo_defs)
  have path: "(if CHR ''/'' \<in> set ''cat'' then Done (Some ''cat'') else resolve ?s1 ''cat'')
        = Done (Some ''/bin/cat'')"
    using res by simp
  show ?thesis
    using C6_failed_open_is_ignored [OF insp red pre fail rest path] insp red pre fail res
    by (simp add: demo_defs)
qed

subsection \<open>C1: a redirection operator as the last token\<close>




subsection \<open>C2: a child whose program replacement fails\<close>

text \<open>When \<open>excute\<close> returns, whatever the status, the child goes on to the end of the loop
  body and is back at the top of the read loop.\<close>

lemma failed_replacement_resumes_loop:
  assumes "excute s tokens = Returned status s'"
  shows "\<exists>sh' s''. after_fork 0 background sh s tokens = Prompting sh' s''"
  using assms by (simp add: after_fork_def child_fate_def next_prompt_def)

text \<open>
  C2 says that a child whose program replacement fails reports the failure and
  terminates, and never goes back to the read loop. The code at the input \<open>nosuch\<close>, a name
  found nowhere on \<open>PATH\<close>: \<open>resolve\<close> returns the null pointer, \<open>execv\<close> fails on it, the
  child prints the message, and then it is at the top of the read loop of \<open>main\<close> with a
  copy of the shell's state, next to the shell that waits for it.
\<close>

theorem C2_child_returns_to_loop:
  "main_body 7 demo_shell demo_os [''nosuch''] =
     (Prompting (demo_shell\<lparr>child_pid := 7, sigint := Handler, sigttou := SIG_IGN\<rparr>)
        (demo_os\<lparr>trace := [Fork 7, Setpgid 7 7, Signal_call SIGTTOU SIG_IGN,
                            Sigaction SIGINT Handler, Waitpid 7]\<rparr>),
      Some (Prompting demo_shell
        (demo_os\<lparr>trace := [Fork 0, Execv None [None], Print cannot_run]\<rparr>)))"
  by (simp add: main_defs excute_loop_arg excute_loop_end demo_defs)

subsection \<open>C4: \<open>resolve\<close>\<close>

text \<open>With at least one segment in \<open>PATH\<close>, and every candidate within its block, \<open>resolve\<close>
  returns the first candidate \<open>segment/name\<close> that exists, in the order of the segments,
  and the null pointer when none exists. The segments are non-empty and free of \<open>:\<close>.\<close>

lemma resolve_loop_find:
  assumes "\<forall>seg \<in> set segs. length seg + 1 + length name + 1 \<le> block s (length seg + 1)"
  shows "resolve_loop s name segs =
     Done (map_option (\<lambda>seg. seg @ ''/'' @ name)
             (find (\<lambda>seg. access_F_OK s (seg @ ''/'' @ name)) segs))"
  using assms by (induction segs) (simp_all add: Let_def)

lemma resolve_find:
  assumes "env_PATH s = Some path" "strtok_all path \<noteq> []"
      and "\<forall>seg \<in> set (strtok_all path). length seg + 1 + length name + 1 \<le> block s (length seg + 1)"
  shows "resolve s name =
     Done (map_option (\<lambda>seg. seg @ ''/'' @ name)
             (find (\<lambda>seg. access_F_OK s (seg @ ''/'' @ name)) (strtok_all path)))"
proof (cases "strtok_all path")
  case Nil
  then show ?thesis using assms(2) by simp
next
  case (Cons seg segs)
  then have "\<forall>seg \<in> set segs. length seg + 1 + length name + 1 \<le> block s (length seg + 1)"
    and "length seg + 1 + length name + 1 \<le> block s (length seg + 1)"
    using assms(3) by simp_all
  then show ?thesis
    using assms(1) Cons by (simp add: resolve_def resolve_loop_find Let_def)
qed

lemma strtok_from_segments:
  "seg \<in> set (strtok_from cur cs) \<Longrightarrow> CHR '':'' \<notin> set cur \<Longrightarrow> seg \<noteq> [] \<and> CHR '':'' \<notin> set seg"
  by (induction cur cs rule: strtok_from.induct) (auto split: if_splits)

lemma strtok_all_example:
  "strtok_all ''/bin:/usr/bin'' = [''/bin'', ''/usr/bin'']
   \<and> strtok_all '':/bin::/usr/bin:'' = [''/bin'', ''/usr/bin'']"
  by (simp add: strtok_all_def)

lemma resolve_example:
  "resolve (demo_os\<lparr>env_PATH := Some ''/usr/bin:/bin''\<rparr>) ''ls'' = Done (Some ''/bin/ls'')
   \<and> resolve demo_os ''nosuch'' = Done None"
  by (simp add: resolve_def strtok_all_def demo_defs)

text \<open>
  C4 says that \<open>resolve\<close> returns NotFound when \<open>PATH\<close> is absent or empty. The code there:
  with \<open>PATH\<close> unset \<open>strlen\<close> is applied to the null pointer that \<open>getenv\<close> returns, and
  with \<open>PATH\<close> empty, or made of \<open>:\<close> only, to the null pointer that the first \<open>strtok\<close>
  returns; the child dies of the null dereference, for every name and system state.
\<close>

theorem C4_resolve_crashes_without_path:
  "resolve (s\<lparr>env_PATH := None\<rparr>) name = Segfault
   \<and> resolve (s\<lparr>env_PATH := Some ''''\<rparr>) name = Segfault
   \<and> resolve (s\<lparr>env_PATH := Some '':''\<rparr>) name = Segfault"
  by (simp add: resolve_def strtok_all_def)

subsection \<open>C5: the mode of an output redirection\<close>

text \<open>An existing file keeps its contents through \<open>open\<close> without \<open>O_TRUNC\<close>, hence through
  every output redirection of \<open>excute\<close>.\<close>

lemma sys_open_keeps_contents:
  assumes "O_TRUNC \<notin> flags" "files s p = Some f"
  shows "files (snd (sys_open s (Some p) flags mode)) p = Some f"
  using assms
  by (auto simp: sys_open_def open_effect_def log_def split: option.splits if_splits)

lemma output_redirection_keeps_contents:
  assumes "files s p = Some f"
  shows "files (redirect CHR ''>'' (Some p) s) p = Some f"
proof -
  have "files (snd (redirect_open CHR ''>'' (Some p) s)) p = Some f"
    using assms by (simp add: redirect_open_def sys_open_keeps_contents)
  then show ?thesis
    by (simp add: redirect_def Let_def sys_dup2_def log_def split: option.splits)
qed

text \<open>
  C5 says that an output target is opened in create-or-truncate mode, an existing file
  being emptied. The code at the input \<open>echo hi > out.txt\<close>, where \<open>out.txt\<close> holds \<open>old\<close>:
  \<open>open\<close> is called write-only with \<open>O_CREAT\<close> and mode \<open>S_IRWXU\<close>, without \<open>O_TRUNC\<close>; it
  returns descriptor 3, which \<open>dup2\<close> then copies onto descriptor 1; the file system is
  the one before the call, with \<open>old\<close> still in \<open>out.txt\<close>.
\<close>

theorem C5_output_not_truncated:
  "excute_loop [''echo'', ''hi'', ''>'', ''out.txt''] 0 [] demo_os
     = Done ([Some ''echo'', Some ''hi''],
             demo_os\<lparr>fdt := (fdt demo_os)(3 \<mapsto> ''out.txt'', 1 \<mapsto> ''out.txt''),
                      next_fd := 4,
                      trace := [Open (Some ''out.txt'') {O_WRONLY, O_CREAT} (Some S_IRWXU) 3,
                                Dup2 3 1]\<rparr>)
   \<and> files demo_os ''out.txt'' = Some \<lparr>contents = ''old'', perm = 420\<rparr>
   \<and> O_TRUNC \<notin> {O_WRONLY, O_CREAT}"
  by (simp add: excute_loop_arg excute_loop_out excute_loop_end run_defs)

subsection \<open>The interrupt handler\<close>

text \<open>Run in the shell, \<open>handler\<close> makes one call: \<open>kill\<close> with the pid last stored in
  \<open>child_pid\<close> and \<open>SIGINT\<close>. When it runs, and what the signal does to its target, is
  outside a sequential model.\<close>

lemma handler_sends_to_child_pid:
  "trace (handler sh s) = trace s @ [Kill (child_pid sh) SIGINT]"
  by (simp add: handler_def log_def)

text \<open>After a foreground launch \<open>handler\<close> is the disposition of \<open>SIGINT\<close> and its target is
  the child just launched.\<close>

lemma handler_after_foreground_launch:
  assumes "tokens \<noteq> []" "lookup (tokens_get_token tokens 0) < 0"
      and "first_char (last tokens) \<noteq> CHR ''&''" "forked > 0"
      and "fst (main_body forked sh s tokens) = Prompting sh' s'"
  shows "sigint sh' = Handler \<and> trace (handler sh' s') = trace s' @ [Kill forked SIGINT]"
  using assms(5) main_body_foreground [OF assms(1-4), of sh s]
  by (auto simp: Let_def next_prompt_def handler_def log_def split: if_splits)

subsection \<open>C8: what one iteration leaves behind in the shell\<close>

text \<open>
  C8, as stated, has every iteration start from a clean state. The shell that has run no
  command has \<open>child_pid = 0\<close> and both signals at their default; after the foreground
  command \<open>ls\<close> the next iteration starts with \<open>child_pid = 7\<close>, the pid of that child,
  \<open>SIGINT\<close> handled by \<open>handler\<close> and \<open>SIGTTOU\<close> ignored.
\<close>

theorem C8_counterexample:
  "child_pid demo_shell = 0 \<and> sigint demo_shell = SIG_DFL \<and> sigttou demo_shell = SIG_DFL
   \<and> fst (main_body 7 demo_shell demo_os [''ls'']) =
      Prompting
        \<lparr>shell_is_interactive = False, child_pid = 7, line_num = 0,
         sigint = Handler, sigttou = SIG_IGN\<rparr>
        (demo_os\<lparr>trace := [Fork 7, Setpgid 7 7, Signal_call SIGTTOU SIG_IGN,
                            Sigaction SIGINT Handler, Waitpid 7]\<rparr>)"
  by (simp add: main_defs excute_loop_arg excute_loop_end demo_defs)

text \<open>
  C8, amended: in every iteration that launches an external command, the shell process
  itself opens no file: its descriptor table and its descriptor counter are the same at
  the next prompt (the redirection targets are opened in the child, in the child's own
  table). The signal dispositions and the recorded child pid are never reset: after a
  foreground launch the next iteration starts with that child's pid in \<open>child_pid\<close>,
  \<open>handler\<close> installed for \<open>SIGINT\<close> and \<open>SIGTTOU\<close> ignored; after a background launch or
  a failed \<open>fork\<close> it starts with what the iteration before left.
\<close>

theorem C8_parent_state_persists:
  assumes "fst (main_body forked sh s tokens) = Prompting sh' s'"
      and "lookup (tokens_get_token tokens 0) < 0"
      and "forked \<noteq> 0"
  shows "fdt s' = fdt s \<and> next_fd s' = next_fd s
       \<and> (if forked > 0 \<and> first_char (last tokens) \<noteq> CHR ''&''
          then child_pid sh' = forked \<and> sigint sh' = Handler \<and> sigttou sh' = SIG_IGN
          else child_pid sh' = child_pid sh \<and> sigint sh' = sigint sh \<and> sigttou sh' = sigttou sh)"
proof -
  have ne: "tokens \<noteq> []"
    using assms(1) by (auto simp: main_body_empty)
  show ?thesis
    using assms(1,3) main_body_forks [OF ne assms(2), of forked sh s]
    by (auto simp: Let_def after_fork_def after_wait_def next_prompt_def log_def
             split: if_splits)
qed

theorem C8_parent_state_persists_witness:
  "fst (main_body 7 demo_shell demo_os [''cat'']) =
      Prompting (demo_shell\<lparr>child_pid := 7, sigint := Handler, sigttou := SIG_IGN\<rparr>)
        (demo_os\<lparr>trace := [Fork 7, Setpgid 7 7, Signal_call SIGTTOU SIG_IGN,
                            Sigaction SIGINT Handler, Waitpid 7]\<rparr>)
   \<and> lookup (tokens_get_token [''cat''] 0) < 0
   \<and> (7::int) \<noteq> 0
   \<and> first_char (last [''cat'']) \<noteq> CHR ''&''
   \<and> fdt (demo_os\<lparr>trace := [Fork 7, Setpgid 7 7, Signal_call SIGTTOU SIG_IGN,
                            Sigaction SIGINT Handler, Waitpid 7]\<rparr>) = fdt demo_os
   \<and> sigint (demo_shell\<lparr>child_pid := 7, sigint := Handler, sigttou := SIG_IGN\<rparr>) = Handler"
proof -
  have run: "fst (main_body 7 demo_shell demo_os [''cat'']) =
      Prompting (demo_shell\<lparr>child_pid := 7, sigint := Handler, sigttou := SIG_IGN\<rparr>)
        (demo_os\<lparr>trace := [Fork 7, Setpgid 7 7, Signal_call SIGTTOU SIG_IGN,
                            Sigaction SIGINT Handler, Waitpid 7]\<rparr>)"
    by (simp add: main_defs excute_loop_arg excute_loop_end demo_defs)
  have nb: "lookup (tokens_get_token [''cat''] 0) < 0"
    by (simp add: lookup_def cmd_table_def tokens_get_token_def)
  show ?thesis
    using C8_parent_state_persists [OF run nb] run nb by (simp add: first_char_def)
qed

subsection \<open>C10: background commands\<close>

text \<open>
  C10, as stated, has the trailing \<open>&\<close> token in the argument vector of every background
  command. In \<open>cat < &\<close> the last token makes the command a background one (the shell does
  not wait), but the loop of \<open>excute\<close> takes it as the file name of \<open><\<close>: \<open>execv\<close> gets the
  single argument \<open>/bin/cat\<close>. And in the one-token command \<open>&\<close> the token is \<open>argv[0]\<close>,
  which \<open>excute\<close> overwrites with the result of \<open>resolve\<close>.
\<close>

theorem C10_counterexample:
  "first_char (last [''cat'', ''<'', ''&'']) = CHR ''&''
   \<and> main_body 7 demo_shell demo_os [''cat'', ''<'', ''&''] =
        (Prompting demo_shell (demo_os\<lparr>trace := [Fork 7]\<rparr>),
         Some (Running ''/bin/cat'' [Some ''/bin/cat'']
           (demo_os\<lparr>trace := [Fork 0, Open (Some ''&'') {O_RDONLY} None (- 1), Dup2 (- 1) 0,
                               Execv (Some ''/bin/cat'') [Some ''/bin/cat'']]\<rparr>)))
   \<and> Some ''&'' \<notin> set [Some ''/bin/cat'']
   \<and> excute demo_os [''&''] = Returned (- 1) (demo_os\<lparr>trace := [Execv None [None]]\<rparr>)"
  by (simp add: main_defs excute_loop_arg excute_loop_in excute_loop_end demo_defs)

text \<open>
  C10, amended: a command that names no built-in is run in the background (the shell
  forks and goes to the next prompt without recording or waiting for the child) whenever
  the first character of its last token is \<open>&\<close>, and nothing removes that token: whenever
  the loop of \<open>excute\<close> inspects it (it does not directly follow an operator that takes it
  as its file name), it is the last cell of the argument vector the loop builds; and
  when \<open>excute\<close> gets to \<open>execv\<close> (the terminating null fits the block of \<open>argv\<close>, and the
  name \<open>a0\<close> in \<open>argv[0]\<close> is a path or \<open>resolve\<close> returns for it), the vector handed to
  \<open>execv\<close> is that vector with its first cell replaced by the path executed: the
  trailing token is still its last cell, unless it is that first cell.
\<close>

theorem C10_trailing_ampersand_kept:
  assumes "tokens \<noteq> []"
      and "first_char (last tokens) = CHR ''&''"
      and "lookup (tokens_get_token tokens 0) < 0"
      and "forked > 0"
      and "inspects tokens 0 (length tokens - 1)"
      and "excute_loop (butlast tokens) 0 [] (log (Fork 0) s) = Done (a, s1)"
      and "(length a + 2) * sizeof_ptr \<le> block s1 (length tokens * sizeof_ptr)"
      and "hd (a @ [Some (last tokens)]) = Some a0"
      and "(if CHR ''/'' \<in> set a0 then Done (Some a0) else resolve s1 a0) = Done p"
  shows "main_body forked sh s tokens =
           (next_prompt sh (log (Fork forked) s),
            Some (child_fate sh (sys_execv s1 p (p # tl (a @ [Some (last tokens)])))))"
proof -
  have nr: "\<not> is_redirect (last tokens)"
    using assms(2) by (simp add: is_redirect_def)
  have loop: "excute_loop tokens 0 [] (log (Fork 0) s) = Done (a @ [Some (last tokens)], s1)"
    using assms(1) nr assms(5,6) by (rule excute_loop_trailing_argument)
  obtain rest where cells: "a @ [Some (last tokens)] = Some a0 # rest"
    using assms(8) by (cases "a @ [Some (last tokens)]") auto
  have "length (a @ [Some (last tokens)]) = length (Some a0 # rest)"
    by (simp only: cells)
  then have len: "length rest = length a" by simp
  have rest: "rest = tl (a @ [Some (last tokens)])"
    by (simp only: cells list.sel)
  have e1: "excute (log (Fork 0) s) tokens = excute_launch (length tokens) (Some a0 # rest) s1"
    using excute_by_loop [OF loop] by (simp only: cells)
  have e2: "excute_launch (length tokens) (Some a0 # rest) s1 = sys_execv s1 p (p # rest)"
    using assms(7,9) len by (intro excute_launch_execv) simp_all
  have "excute (log (Fork 0) s) tokens = sys_execv s1 p (p # rest)"
    using e1 e2 by (rule trans)
  then have "excute (log (Fork 0) s) tokens = sys_execv s1 p (p # tl (a @ [Some (last tokens)]))"
    by (simp only: rest)
  then show ?thesis
    using main_body_background [OF assms(1,3,2,4), of sh s] by simp
qed

theorem C10_trailing_ampersand_kept_witness:
  "[''ls'', ''&''] \<noteq> []
   \<and> first_char (last [''ls'', ''&'']) = CHR ''&''
   \<and> lookup (tokens_get_token [''ls'', ''&''] 0) < 0
   \<and> (7::int) > 0
   \<and> inspects [''ls'', ''&''] 0 (length [''ls'', ''&''] - 1)
   \<and> excute_loop (butlast [''ls'', ''&'']) 0 [] (log (Fork 0) demo_os)
       = Done ([Some ''ls''], demo_os\<lparr>trace := [Fork 0]\<rparr>)
   \<and> (length [Some ''ls''] + 2) * sizeof_ptr
       \<le> block (demo_os\<lparr>trace := [Fork 0]\<rparr>) (length [''ls'', ''&''] * sizeof_ptr)
   \<and> hd ([Some ''ls''] @ [Some (last [''ls'', ''&''])]) = Some ''ls''
   \<and> resolve (demo_os\<lparr>trace := [Fork 0]\<rparr>) ''ls'' = Done (Some ''/bin/ls'')
   \<and> main_body 7 demo_shell demo_os [''ls'', ''&''] =
        (Prompting demo_shell (demo_os\<lparr>trace := [Fork 7]\<rparr>),
         Some (Running ''/bin/ls'' [Some ''/bin/ls'', Some ''&'']
           (demo_os\<lparr>trace := [Fork 0,
              Execv (Some ''/bin/ls'') [Some ''/bin/ls'', Some ''&'']]\<rparr>)))"
proof -
  let ?tokens = "[''ls'', ''&'']"
  let ?s1 = "demo_os\<lparr>trace := [Fork 0]\<rparr>"
  have ne: "?tokens \<noteq> []" by simp
  have bg: "first_char (last ?tokens) = CHR ''&''" by (simp add: first_char_def)
  have nb: "lookup (tokens_get_token ?tokens 0) < 0"
    by (simp add: lookup_def cmd_table_def tokens_get_token_def)
  have insp: "inspects ?tokens 0 (length ?tokens - 1)"
    by (simp add: inspects.simps is_redirect_def first_char_def)
  have pre: "excute_loop (butlast ?tokens) 0 [] (log (Fork 0) demo_os) = Done ([Some ''ls''], ?s1)"
    by (simp add: excute_loop_arg excute_loop_end demo_defs)
  have fits: "(length [Some ''ls''] + 2) * sizeof_ptr \<le> block ?s1 (length ?tokens * sizeof_ptr)"
    by (simp add: demo_defs)
  have a0: "hd ([Some ''ls''] @ [Some (last ?tokens)]) = Some ''ls''" by simp
  have res: "resolve ?s1 ''ls'' = Done (Some ''/bin/ls'')"
    by (simp add: resolve_def strtok_all_def demo_defs)
  have path: "(if CHR ''/'' \<in> set ''ls'' then Done (Some ''ls'') else resolve ?s1 ''ls'')
        = Done (Some ''/bin/ls'')"
    using res by simp
  show ?thesis
    using C10_trailing_ampersand_kept [OF ne bg nb _ insp pre fits a0 path, of 7 demo_shell]
          bg nb insp pre fits res
    by (simp add: child_fate_def next_prompt_def demo_defs)
qed

end
